theory Spec2Isabelle
  imports Main "HOL-Library.Word" "HOL-Library.Signed_Division"
begin

section \<open>Fee tracker: account decoding and the unclaimed-fee computation\<close>

text \<open>
  A shallow embedding of \<^verbatim>\<open>trackFeesLocked.mjs\<close>: the wide-integer helper
  \<^verbatim>\<open>u256BytesToBigInt\<close>, the discriminator lookup of
  \<^verbatim>\<open>decodeIdlAccountUnknown\<close>, the pool/position role swap of
  \<^verbatim>\<open>processPair\<close> and the numeric core \<^verbatim>\<open>computeUnclaimedTokenB\<close>.
  A JavaScript \<^verbatim>\<open>BigInt\<close> is an \<open>int\<close>; a byte is an \<open>8 word\<close>; every
  \<^verbatim>\<open>throw\<close> is a value \<open>Inl e\<close> of a sum type.
\<close>

subsection \<open>Data model\<close>

type_synonym byte = "8 word"

text \<open>
  A decoded field value. The Borsh coder yields a \<^verbatim>\<open>BN\<close> for an integer field
  (u64, u128) and a plain array of byte-sized numbers for a \<^verbatim>\<open>[u8; 32]\<close> field.
\<close>

datatype jsval = BNv int | Bytes "byte list"

text \<open>A decoded account is a JavaScript object: a finite map from field names to values.\<close>

type_synonym parsed = "string \<Rightarrow> jsval option"

datatype error =
    TypeError
  | SyntaxError
  | AccountNotFound
  | NotOwnedByProgram
  | NoDiscriminatorMatch
  | NeitherLooksLikePool
  | MissingCheckpoint
  | CoderError

subsection \<open>Constants\<close>

text \<open>\<^verbatim>\<open>const LIQUIDITY_SCALE = 1n << 128n;\<close>\<close>

definition LIQUIDITY_SCALE :: int where
  "LIQUIDITY_SCALE = push_bit 128 1"

text \<open>The base58 text of the program id that must own every decoded account.\<close>

definition PROGRAM_ID :: string where
  "PROGRAM_ID = ''cpamdpZCGKUy5JxQXB4dcpGPiikHawvSWAd6mEn1sGG''"

subsection \<open>\<^verbatim>\<open>u256BytesToBigInt\<close>\<close>

text \<open>
  \<^verbatim>\<open>
  let x = 0n;
  for (let i = arr.length - 1; i >= 0; i--) { x = (x << 8n) + BigInt(arr[i]); }
  return x;
  \<close>
  The loop, with its counter \<open>i\<close> and accumulator \<open>x\<close>. The counter starts at
  \<open>length arr - 1\<close> and only decreases, so \<open>arr ! nat i\<close> is always read in range.
\<close>

function u256_loop :: "byte list \<Rightarrow> int \<Rightarrow> int \<Rightarrow> int" where
  "u256_loop arr i x =
     (if 0 \<le> i then u256_loop arr (i - 1) (push_bit 8 x + uint (arr ! nat i)) else x)"
  by pat_completeness auto
termination
  by (relation "measure (\<lambda>(arr, i, x). nat (i + 1))") auto

declare u256_loop.simps [simp del]

definition u256BytesToBigInt :: "byte list \<Rightarrow> int" where
  "u256BytesToBigInt bytes = u256_loop bytes (int (length bytes) - 1) 0"

subsection \<open>Reference notions for the little-endian reading\<close>

text \<open>
  The little-endian value of a byte sequence as the specification words it: byte 0 is
  the least significant digit in base 256.
\<close>

definition le_sum :: "byte list \<Rightarrow> int" where
  "le_sum b = (\<Sum>i<length b. uint (b ! i) * 256 ^ i)"

text \<open>The same value by recursion on the list; used to reason about the loop.\<close>

fun le_val :: "byte list \<Rightarrow> int" where
  "le_val [] = 0"
| "le_val (b # bs) = uint b + 256 * le_val bs"

text \<open>The \<open>n\<close>-byte little-endian encoding of a value, least significant byte first.\<close>

fun le_encode :: "nat \<Rightarrow> int \<Rightarrow> byte list" where
  "le_encode 0 v = []"
| "le_encode (Suc n) v = word_of_int (v mod 256) # le_encode n (v div 256)"

subsection \<open>Reading fields of a decoded account\<close>

text \<open>
  \<^verbatim>\<open>BigInt(obj.field.toString())\<close>. A missing field is \<^verbatim>\<open>undefined\<close>, whose
  \<^verbatim>\<open>toString\<close> call throws a TypeError. A \<^verbatim>\<open>BN\<close> prints its decimal digits, which
  \<^verbatim>\<open>BigInt\<close> reads back. A plain array prints its elements joined by commas:
  the empty text reads as \<open>0n\<close>, one element reads as that number, and a text with a
  comma is a SyntaxError.
\<close>

definition BigInt_toString :: "parsed \<Rightarrow> string \<Rightarrow> error + int" where
  "BigInt_toString obj field =
     (case obj field of
        None \<Rightarrow> Inl TypeError
      | Some (BNv n) \<Rightarrow> Inr n
      | Some (Bytes bs) \<Rightarrow>
          (case bs of [] \<Rightarrow> Inr 0 | [b] \<Rightarrow> Inr (uint b) | _ \<Rightarrow> Inl SyntaxError))"

text \<open>
  \<^verbatim>\<open>u256BytesToBigInt(obj.field)\<close>. \<^verbatim>\<open>Array.from(undefined)\<close> throws a TypeError;
  a \<^verbatim>\<open>BN\<close> is array-like with a positive \<^verbatim>\<open>length\<close> and no indexed elements, so
  the loop reaches \<^verbatim>\<open>BigInt(undefined)\<close>, a TypeError as well.
\<close>

definition u256_field :: "parsed \<Rightarrow> string \<Rightarrow> error + int" where
  "u256_field obj field =
     (case obj field of
        None \<Rightarrow> Inl TypeError
      | Some (BNv n) \<Rightarrow> Inl TypeError
      | Some (Bytes bs) \<Rightarrow> Inr (u256BytesToBigInt bs))"

subsection \<open>\<^verbatim>\<open>computeUnclaimedTokenB\<close>\<close>

text \<open>\<^verbatim>\<open>let delta = feeBPerLiquidity - feeBCheckpoint; if (delta < 0n) delta = 0n;\<close>\<close>

definition clamped_delta :: "int \<Rightarrow> int \<Rightarrow> int" where
  "clamped_delta feeBPerLiquidity feeBCheckpoint =
     (let delta = feeBPerLiquidity - feeBCheckpoint in if delta < 0 then 0 else delta)"

text \<open>
  \<^verbatim>\<open>const newlyAccrued = (liquidity * delta) / LIQUIDITY_SCALE;\<close>
  Division of \<^verbatim>\<open>BigInt\<close>s truncates towards zero, which is \<open>sdiv\<close> on \<open>int\<close>.
\<close>

definition newlyAccrued :: "int \<Rightarrow> int \<Rightarrow> int" where
  "newlyAccrued liquidity delta = (liquidity * delta) sdiv LIQUIDITY_SCALE"

text \<open>
  The function body, statement by statement and in the source's order, so that the
  first failing read decides the error and the early return for zero liquidity comes
  before the pool accumulator, the checkpoint and the pending fee are read.
\<close>

definition computeUnclaimedTokenB :: "parsed \<Rightarrow> parsed \<Rightarrow> error + int" where
  "computeUnclaimedTokenB poolState posState =
     (case BigInt_toString posState ''unlocked_liquidity'' of Inl e \<Rightarrow> Inl e | Inr unlocked \<Rightarrow>
      case BigInt_toString posState ''vested_liquidity'' of Inl e \<Rightarrow> Inl e | Inr vested \<Rightarrow>
      case BigInt_toString posState ''permanent_locked_liquidity'' of Inl e \<Rightarrow> Inl e | Inr permanent \<Rightarrow>
      let liquidity = unlocked + vested + permanent in
      if liquidity = 0 then Inr 0
      else
      case u256_field poolState ''fee_b_per_liquidity'' of Inl e \<Rightarrow> Inl e | Inr feeBPerLiquidity \<Rightarrow>
      case u256_field posState ''fee_b_per_token_checkpoint'' of Inl e \<Rightarrow> Inl e | Inr feeBCheckpoint \<Rightarrow>
      case BigInt_toString posState ''fee_b_pending'' of Inl e \<Rightarrow> Inl e | Inr feeBPending \<Rightarrow>
      let delta = clamped_delta feeBPerLiquidity feeBCheckpoint;
          totalPending = newlyAccrued liquidity delta + feeBPending
      in Inr totalPending)"

subsection \<open>The role swap of \<^verbatim>\<open>processPair\<close>\<close>



subsection \<open>\<^verbatim>\<open>decodeIdlAccountUnknown\<close>\<close>

text \<open>What \<^verbatim>\<open>connection.getAccountInfo\<close> returns for an existing account.\<close>

record account_info =
  owner :: string
  data :: "byte list"

text \<open>
  The parts of the program that live outside the source file are parameters: the
  account names of \<^verbatim>\<open>idl.json\<close>, the SHA-256 digest of the \<^verbatim>\<open>crypto\<close> module, the
  Borsh coder and the RPC connection.
\<close>

record environment =
  idl_accounts :: "string list"
  sha256 :: "string \<Rightarrow> byte list"
  coder_decode :: "string \<Rightarrow> byte list \<Rightarrow> error + parsed"
  getAccountInfo :: "string \<Rightarrow> account_info option"

text \<open>\<^verbatim>\<open>hash.subarray(0, 8)\<close> of the digest of \<^verbatim>\<open>"account:" + name\<close>.\<close>

definition accountDiscriminator :: "environment \<Rightarrow> string \<Rightarrow> byte list" where
  "accountDiscriminator env name = take 8 (sha256 env (''account:'' @ name))"

text \<open>The table filled once at start-up, one entry per account of the IDL.\<close>

definition idlAccountDiscriminators :: "environment \<Rightarrow> string \<Rightarrow> byte list option" where
  "idlAccountDiscriminators env =
     fold (\<lambda>name tbl. tbl(name \<mapsto> accountDiscriminator env name)) (idl_accounts env) Map.empty"

text \<open>
  The search loop: the first account whose table entry exists and equals the observed
  discriminator byte for byte (\<^verbatim>\<open>Buffer.compare\<close> is 0 only for equal length and
  content) stops the loop.
\<close>

fun match_loop :: "(string \<Rightarrow> byte list option) \<Rightarrow> byte list \<Rightarrow> string list \<Rightarrow> string option" where
  "match_loop tbl disc [] = None"
| "match_loop tbl disc (name # accs) =
     (case tbl name of
        Some expectedDisc \<Rightarrow>
          if expectedDisc = disc then Some name else match_loop tbl disc accs
      | None \<Rightarrow> match_loop tbl disc accs)"

text \<open>
  The function itself. \<^verbatim>\<open>if (!matchedName)\<close> is true for \<^verbatim>\<open>null\<close> and for the
  empty string.
\<close>

definition decodeIdlAccountUnknown :: "environment \<Rightarrow> string \<Rightarrow> error + (string \<times> parsed)" where
  "decodeIdlAccountUnknown env pubkey =
     (case getAccountInfo env pubkey of
        None \<Rightarrow> Inl AccountNotFound
      | Some info \<Rightarrow>
          if owner info \<noteq> PROGRAM_ID then Inl NotOwnedByProgram
          else
            let disc = take 8 (data info) in
            (case match_loop (idlAccountDiscriminators env) disc (idl_accounts env) of
               None \<Rightarrow> Inl NoDiscriminatorMatch
             | Some matchedName \<Rightarrow>
                 if matchedName = [] then Inl NoDiscriminatorMatch
                 else
                   (case coder_decode env matchedName (data info) of
                      Inl e \<Rightarrow> Inl e
                    | Inr parsed \<Rightarrow> Inr (matchedName, parsed))))"

subsection \<open>Predicates on decoded accounts used to state the properties\<close>

text \<open>The pool account carries the accumulator bytes \<open>acc\<close>.\<close>

definition pool_fields :: "parsed \<Rightarrow> byte list \<Rightarrow> bool" where
  "pool_fields poolState acc \<longleftrightarrow> poolState ''fee_b_per_liquidity'' = Some (Bytes acc)"

text \<open>The position account carries the three liquidity components \<open>u\<close>, \<open>v\<close>, \<open>p\<close>.\<close>

definition liquidity_fields :: "parsed \<Rightarrow> int \<Rightarrow> int \<Rightarrow> int \<Rightarrow> bool" where
  "liquidity_fields posState u v p \<longleftrightarrow>
     posState ''unlocked_liquidity'' = Some (BNv u) \<and>
     posState ''vested_liquidity'' = Some (BNv v) \<and>
     posState ''permanent_locked_liquidity'' = Some (BNv p)"

text \<open>The position account also carries the checkpoint bytes and the pending fee.\<close>

definition position_fields :: "parsed \<Rightarrow> int \<Rightarrow> int \<Rightarrow> int \<Rightarrow> byte list \<Rightarrow> int \<Rightarrow> bool" where
  "position_fields posState u v p chk pending \<longleftrightarrow>
     liquidity_fields posState u v p \<and>
     posState ''fee_b_per_token_checkpoint'' = Some (Bytes chk) \<and>
     posState ''fee_b_pending'' = Some (BNv pending)"

subsection \<open>Example accounts\<close>

text \<open>The 32 little-endian bytes of \<open>2 * 2 ^ 128\<close> and of \<open>2 ^ 128\<close>.\<close>

definition bytes_two_scale :: "byte list" where
  "bytes_two_scale =
     [0, 0, 0, 0, 0, 0, 0, 0, 0, 0, 0, 0, 0, 0, 0, 0,
      2, 0, 0, 0, 0, 0, 0, 0, 0, 0, 0, 0, 0, 0, 0, 0]"

definition bytes_one_scale :: "byte list" where
  "bytes_one_scale =
     [0, 0, 0, 0, 0, 0, 0, 0, 0, 0, 0, 0, 0, 0, 0, 0,
      1, 0, 0, 0, 0, 0, 0, 0, 0, 0, 0, 0, 0, 0, 0, 0]"

definition example_pool :: "byte list \<Rightarrow> parsed" where
  "example_pool acc = [''fee_b_per_liquidity'' \<mapsto> Bytes acc, ''liquidity'' \<mapsto> BNv 7]"

definition example_position :: "int \<Rightarrow> int \<Rightarrow> int \<Rightarrow> byte list \<Rightarrow> int \<Rightarrow> parsed" where
  "example_position u v p chk pending =
     [''unlocked_liquidity'' \<mapsto> BNv u,
      ''vested_liquidity'' \<mapsto> BNv v,
      ''permanent_locked_liquidity'' \<mapsto> BNv p,
      ''fee_b_per_token_checkpoint'' \<mapsto> Bytes chk,
      ''fee_b_pending'' \<mapsto> BNv pending]"


text \<open>
  An environment for concrete runs: an IDL with two accounts, a stand-in digest of the
  right length (32 bytes, the first one the length of the text), a coder that
  returns an empty object, and three accounts on the chain.
\<close>

definition example_digest :: "string \<Rightarrow> byte list" where
  "example_digest s =
     [word_of_nat (length s), 0, 0, 0, 0, 0, 0, 0, 0, 0, 0, 0, 0, 0, 0, 0,
      0, 0, 0, 0, 0, 0, 0, 0, 0, 0, 0, 0, 0, 0, 0, 0]"

definition example_chain :: "string \<Rightarrow> account_info option" where
  "example_chain pubkey =
     (if pubkey = ''foreign''
        then Some \<lparr>owner = ''11111111111111111111111111111111'',
                   data = [12, 0, 0, 0, 0, 0, 0, 0, 1, 2, 3]\<rparr>
      else if pubkey = ''untagged''
        then Some \<lparr>owner = PROGRAM_ID, data = [9, 9, 9, 9, 9, 9, 9, 9, 1, 2, 3]\<rparr>
      else if pubkey = ''short''
        then Some \<lparr>owner = PROGRAM_ID, data = [12, 0, 0]\<rparr>
      else None)"

definition example_env :: environment where
  "example_env =
     \<lparr>idl_accounts = [''Pool'', ''Position''],
      sha256 = example_digest,
      coder_decode = (\<lambda>name bytes. Inr Map.empty),
      getAccountInfo = example_chain\<rparr>"

subsection \<open>Properties of the wide-integer decode\<close>

lemma le_val_append: "le_val (xs @ ys) = le_val xs + 256 ^ length xs * le_val ys"
  by (induction xs) (simp_all add: algebra_simps)

lemma le_val_take_Suc:
  assumes "k < length arr"
  shows "le_val (take (Suc k) arr) = le_val (take k arr) + 256 ^ k * uint (arr ! k)"
proof -
  have "take (Suc k) arr = take k arr @ [arr ! k]"
    using assms by (simp add: take_Suc_conv_app_nth)
  then show ?thesis
    using assms by (simp add: le_val_append)
qed

lemma u256_loop_eq:
  "- 1 \<le> i \<Longrightarrow> i < int (length arr) \<Longrightarrow>
   u256_loop arr i x = x * 256 ^ nat (i + 1) + le_val (take (nat (i + 1)) arr)"
proof (induction arr i x rule: u256_loop.induct)
  case (1 arr i x)
  show ?case
  proof (cases "0 \<le> i")
    case False
    with "1.prems" have "i = - 1" by simp
    then show ?thesis by (simp add: u256_loop.simps)
  next
    case True
    define k where "k = nat i"
    have i: "i = int k" using True by (simp add: k_def)
    have klt: "k < length arr" using "1.prems" i by simp
    have "u256_loop arr i x = u256_loop arr (i - 1) (push_bit 8 x + uint (arr ! nat i))"
      using True by (subst u256_loop.simps) simp
    also have "\<dots> = (push_bit 8 x + uint (arr ! nat i)) * 256 ^ nat (i - 1 + 1)
                     + le_val (take (nat (i - 1 + 1)) arr)"
      using True "1.prems" by (intro "1.IH") simp_all
    also have "\<dots> = (x * 256 + uint (arr ! k)) * 256 ^ k + le_val (take k arr)"
      by (simp add: i push_bit_eq_mult)
    also have "\<dots> = x * 256 ^ Suc k + le_val (take (Suc k) arr)"
      using klt by (simp add: le_val_take_Suc algebra_simps)
    also have "Suc k = nat (i + 1)" by (simp add: i)
    finally show ?thesis .
  qed
qed

lemma u256BytesToBigInt_le_val: "u256BytesToBigInt b = le_val b"
  by (simp add: u256BytesToBigInt_def u256_loop_eq)

lemma le_val_sum: "le_val b = le_sum b"
  unfolding le_sum_def
proof (induction b)
  case Nil
  then show ?case by simp
next
  case (Cons a b)
  have "(\<Sum>i<length (a # b). uint ((a # b) ! i) * 256 ^ i)
        = uint a + (\<Sum>i<length b. uint (b ! i) * 256 ^ Suc i)"
    by (simp add: sum.lessThan_Suc_shift del: sum.lessThan_Suc)
  also have "\<dots> = uint a + 256 * (\<Sum>i<length b. uint (b ! i) * 256 ^ i)"
    by (simp add: sum_distrib_left mult.assoc mult.left_commute)
  finally show ?case using Cons.IH by simp
qed

lemma le_val_nonneg: "0 \<le> le_val b"
  by (induction b) simp_all

lemma le_val_bound: "le_val b < 256 ^ length b"
proof (induction b)
  case Nil
  then show ?case by simp
next
  case (Cons a b)
  have "uint a < 256" using uint_bounded [of a] by simp
  moreover have "le_val b + 1 \<le> 256 ^ length b" using Cons.IH by simp
  then have "256 * (le_val b + 1) \<le> 256 * 256 ^ length b" by simp
  ultimately show ?case by (simp add: algebra_simps)
qed

lemma le_val_encode: "0 \<le> v \<Longrightarrow> v < 256 ^ n \<Longrightarrow> le_val (le_encode n v) = v"
proof (induction n arbitrary: v)
  case 0
  then show ?case by simp
next
  case (Suc n)
  have b: "uint (word_of_int (v mod 256) :: byte) = v mod 256"
    by (simp add: uint_word_of_int)
  have "0 \<le> v div 256" using Suc.prems by (simp add: pos_imp_zdiv_nonneg_iff)
  moreover have "v div 256 < 256 ^ n"
    using Suc.prems by (simp add: div_less_iff_less_mult mult.commute)
  ultimately have "le_val (le_encode n (v div 256)) = v div 256" by (rule Suc.IH)
  then show ?case by (simp add: b)
qed

lemma length_le_encode: "length (le_encode n v) = n"
  by (induction n arbitrary: v) simp_all

subsection \<open>The shape of \<^verbatim>\<open>computeUnclaimedTokenB\<close> on well-typed accounts\<close>

lemma LIQUIDITY_SCALE_eq: "LIQUIDITY_SCALE = 2 ^ 128"
  by (simp add: LIQUIDITY_SCALE_def push_bit_eq_mult)

lemma clamped_delta_eq: "clamped_delta a c = max 0 (a - c)"
  by (simp add: clamped_delta_def Let_def max_def)

lemma newlyAccrued_nonneg:
  assumes "0 \<le> l" "0 \<le> d"
  shows "newlyAccrued l d = (l * d) div 2 ^ 128"
proof -
  have "0 \<le> l * d" using assms by simp
  then show ?thesis
    by (simp add: newlyAccrued_def LIQUIDITY_SCALE_eq signed_divide_int_def sgn_if)
qed

lemma computeUnclaimedTokenB_zero:
  assumes "liquidity_fields posState u v p" "u + v + p = 0"
  shows "computeUnclaimedTokenB poolState posState = Inr 0"
  using assms
  by (simp add: computeUnclaimedTokenB_def liquidity_fields_def BigInt_toString_def)

lemma computeUnclaimedTokenB_nonzero:
  assumes "pool_fields poolState acc" "position_fields posState u v p chk pending"
    and "u + v + p \<noteq> 0"
  shows "computeUnclaimedTokenB poolState posState =
         Inr (newlyAccrued (u + v + p)
                (clamped_delta (u256BytesToBigInt acc) (u256BytesToBigInt chk)) + pending)"
  using assms
  by (simp add: computeUnclaimedTokenB_def position_fields_def liquidity_fields_def
      pool_fields_def BigInt_toString_def u256_field_def)

lemma fold_upd_lookup:
  "fold (\<lambda>name tbl. tbl(name \<mapsto> f name)) names tbl0 k =
     (if k \<in> set names then Some (f k) else tbl0 k)"
  by (induction names arbitrary: tbl0) auto

lemma idlAccountDiscriminators_lookup:
  "name \<in> set (idl_accounts env) \<Longrightarrow>
   idlAccountDiscriminators env name = Some (accountDiscriminator env name)"
  by (simp add: idlAccountDiscriminators_def fold_upd_lookup)

lemma match_loop_None:
  "\<forall>name \<in> set accs. tbl name \<noteq> Some disc \<Longrightarrow> match_loop tbl disc accs = None"
  by (induction accs) (auto split: option.splits)

lemma decodeIdlAccountUnknown_no_match:
  assumes "getAccountInfo env pubkey = Some info" "owner info = PROGRAM_ID"
    and "\<forall>name \<in> set (idl_accounts env). accountDiscriminator env name \<noteq> take 8 (data info)"
  shows "decodeIdlAccountUnknown env pubkey = Inl NoDiscriminatorMatch"
proof -
  have "\<forall>name \<in> set (idl_accounts env).
          idlAccountDiscriminators env name \<noteq> Some (take 8 (data info))"
    using assms(3) by (simp add: idlAccountDiscriminators_lookup)
  then have "match_loop (idlAccountDiscriminators env) (take 8 (data info)) (idl_accounts env) = None"
    by (rule match_loop_None)
  then show ?thesis
    using assms(1,2) by (simp add: decodeIdlAccountUnknown_def)
qed

lemma example_pool_fields: "pool_fields (example_pool acc) acc"
  by (simp add: pool_fields_def example_pool_def)

lemma example_position_fields:
  "position_fields (example_position u v p chk pending) u v p chk pending"
  by (simp add: position_fields_def liquidity_fields_def example_position_def)

lemma u256_two_scale: "u256BytesToBigInt bytes_two_scale = 2 * 2 ^ 128"
  by (simp add: u256BytesToBigInt_le_val bytes_two_scale_def)

lemma u256_one_scale: "u256BytesToBigInt bytes_one_scale = 2 ^ 128"
  by (simp add: u256BytesToBigInt_le_val bytes_one_scale_def)

subsection \<open>Discriminators of the example environment\<close>

lemma example_disc_Pool: "accountDiscriminator example_env ''Pool'' = [12, 0, 0, 0, 0, 0, 0, 0]"
  by (simp add: accountDiscriminator_def example_env_def example_digest_def)

lemma example_disc_Position:
  "accountDiscriminator example_env ''Position'' = [16, 0, 0, 0, 0, 0, 0, 0]"
  by (simp add: accountDiscriminator_def example_env_def example_digest_def)

section \<open>The properties\<close>

subsection \<open>Clamped delta\<close>

text \<open>
  Claim C1, as stated, at a position without liquidity: the accumulator equals the
  checkpoint and the pending fee is 500, yet the early return for zero liquidity gives
  0, not the pending fee.
\<close>

theorem C1_counterexample:
  "pool_fields (example_pool bytes_one_scale) bytes_one_scale \<and>
   position_fields (example_position 0 0 0 bytes_one_scale 500) 0 0 0 bytes_one_scale 500 \<and>
   u256BytesToBigInt bytes_one_scale \<le> u256BytesToBigInt bytes_one_scale \<and>
   computeUnclaimedTokenB (example_pool bytes_one_scale)
     (example_position 0 0 0 bytes_one_scale 500) = Inr 0 \<and>
   computeUnclaimedTokenB (example_pool bytes_one_scale)
     (example_position 0 0 0 bytes_one_scale 500) \<noteq> Inr 500"
proof -
  have p: "position_fields (example_position 0 0 0 bytes_one_scale 500) 0 0 0 bytes_one_scale 500"
    by (rule example_position_fields)
  then have "liquidity_fields (example_position 0 0 0 bytes_one_scale 500) 0 0 0"
    by (simp add: position_fields_def)
  then have "computeUnclaimedTokenB (example_pool bytes_one_scale)
     (example_position 0 0 0 bytes_one_scale 500) = Inr 0"
    by (rule computeUnclaimedTokenB_zero) simp
  then show ?thesis using p example_pool_fields [of bytes_one_scale] by simp
qed

text \<open>
  Claim C1, amended: for every pool and position account whose total liquidity is not
  zero and whose accumulator is numerically at most the checkpoint,
  \<^verbatim>\<open>computeUnclaimedTokenB\<close> returns exactly the pending fee of the position: the
  delta is clamped to zero.
\<close>

theorem C1_clamped_delta_returns_pending:
  assumes "pool_fields poolState acc" "position_fields posState u v p chk pending"
    and "u + v + p \<noteq> 0"
    and "u256BytesToBigInt acc \<le> u256BytesToBigInt chk"
  shows "computeUnclaimedTokenB poolState posState = Inr pending"
proof -
  have "clamped_delta (u256BytesToBigInt acc) (u256BytesToBigInt chk) = 0"
    using assms(4) by (simp add: clamped_delta_eq)
  then show ?thesis
    using computeUnclaimedTokenB_nonzero [OF assms(1-3)]
    by (simp add: newlyAccrued_def)
qed

theorem C1_clamped_delta_returns_pending_witness:
  "pool_fields (example_pool bytes_one_scale) bytes_one_scale \<and>
   position_fields (example_position 1000000 0 0 bytes_two_scale 500)
     1000000 0 0 bytes_two_scale 500 \<and>
   (1000000::int) + 0 + 0 \<noteq> 0 \<and>
   u256BytesToBigInt bytes_one_scale \<le> u256BytesToBigInt bytes_two_scale \<and>
   computeUnclaimedTokenB (example_pool bytes_one_scale)
     (example_position 1000000 0 0 bytes_two_scale 500) = Inr 500"
proof -
  have a: "pool_fields (example_pool bytes_one_scale) bytes_one_scale"
    by (rule example_pool_fields)
  have b: "position_fields (example_position 1000000 0 0 bytes_two_scale 500)
     1000000 0 0 bytes_two_scale 500"
    by (rule example_position_fields)
  have c: "(1000000::int) + 0 + 0 \<noteq> 0" by simp
  have d: "u256BytesToBigInt bytes_one_scale \<le> u256BytesToBigInt bytes_two_scale"
    by (simp add: u256_one_scale u256_two_scale)
  show ?thesis
    using a b c d C1_clamped_delta_returns_pending [OF a b c d] by simp
qed

subsection \<open>Zero liquidity\<close>

text \<open>
  Claim C2: when the three liquidity components of the position sum to zero, the
  result is 0, whatever the pool account is and whatever else the position carries
  (accumulator, checkpoint and pending fee are not even read).
\<close>

theorem C2_zero_liquidity:
  "liquidity_fields posState u v p \<Longrightarrow> u + v + p = 0 \<Longrightarrow>
   computeUnclaimedTokenB poolState posState = Inr 0"
  by (rule computeUnclaimedTokenB_zero)

theorem C2_zero_liquidity_witness:
  "liquidity_fields (example_position 0 0 0 bytes_one_scale 500) 0 0 0 \<and>
   (0::int) + 0 + 0 = 0 \<and>
   computeUnclaimedTokenB (example_pool bytes_two_scale)
     (example_position 0 0 0 bytes_one_scale 500) = Inr 0"
proof -
  have l: "liquidity_fields (example_position 0 0 0 bytes_one_scale 500) 0 0 0"
    using example_position_fields [of 0 0 0 bytes_one_scale 500]
    by (simp add: position_fields_def)
  have z: "(0::int) + 0 + 0 = 0" by simp
  show ?thesis
    using l z C2_zero_liquidity [OF l z, of "example_pool bytes_two_scale"] by simp
qed

subsection \<open>Roles of the two decoded accounts\<close>




subsection \<open>Monotonicity\<close>

text \<open>
  Claim C4: for a fixed position account with non-negative total liquidity (its
  components are unsigned on the chain), a numerically larger pool accumulator never
  gives a smaller result; both calls return a value.
\<close>

theorem C4_monotone_in_accumulator:
  assumes "position_fields posState u v p chk pending"
    and "0 \<le> u + v + p"
    and "pool_fields pool1 acc1" "pool_fields pool2 acc2"
    and "u256BytesToBigInt acc1 \<le> u256BytesToBigInt acc2"
  shows "\<exists>r1 r2. computeUnclaimedTokenB pool1 posState = Inr r1 \<and>
                 computeUnclaimedTokenB pool2 posState = Inr r2 \<and> r1 \<le> r2"
proof (cases "u + v + p = 0")
  case True
  have "liquidity_fields posState u v p"
    using assms(1) by (simp add: position_fields_def)
  then have "computeUnclaimedTokenB pool1 posState = Inr 0"
    "computeUnclaimedTokenB pool2 posState = Inr 0"
    using True by (simp_all add: computeUnclaimedTokenB_zero)
  then show ?thesis by simp
next
  case False
  let ?l = "u + v + p"
  let ?c = "u256BytesToBigInt chk"
  let ?d1 = "clamped_delta (u256BytesToBigInt acc1) ?c"
  let ?d2 = "clamped_delta (u256BytesToBigInt acc2) ?c"
  have d: "0 \<le> ?d1" "?d1 \<le> ?d2"
    using assms(5) by (simp_all add: clamped_delta_eq)
  then have "?l * ?d1 \<le> ?l * ?d2"
    using assms(2) by (simp add: mult_left_mono)
  then have "(?l * ?d1) div 2 ^ 128 \<le> (?l * ?d2) div 2 ^ 128"
    by (simp add: zdiv_mono1)
  then have "newlyAccrued ?l ?d1 \<le> newlyAccrued ?l ?d2"
    using assms(2) d by (simp add: newlyAccrued_nonneg)
  then show ?thesis
    using computeUnclaimedTokenB_nonzero [OF assms(3) assms(1) False]
      computeUnclaimedTokenB_nonzero [OF assms(4) assms(1) False]
    by simp
qed

theorem C4_monotone_in_accumulator_witness:
  "position_fields (example_position 1000000 0 0 bytes_one_scale 500)
      1000000 0 0 bytes_one_scale 500 \<and>
   (0::int) \<le> 1000000 + 0 + 0 \<and>
   pool_fields (example_pool bytes_one_scale) bytes_one_scale \<and>
   pool_fields (example_pool bytes_two_scale) bytes_two_scale \<and>
   u256BytesToBigInt bytes_one_scale \<le> u256BytesToBigInt bytes_two_scale \<and>
   (\<exists>r1 r2. computeUnclaimedTokenB (example_pool bytes_one_scale)
               (example_position 1000000 0 0 bytes_one_scale 500) = Inr r1 \<and>
            computeUnclaimedTokenB (example_pool bytes_two_scale)
               (example_position 1000000 0 0 bytes_one_scale 500) = Inr r2 \<and> r1 \<le> r2)"
proof -
  have a: "position_fields (example_position 1000000 0 0 bytes_one_scale 500)
      1000000 0 0 bytes_one_scale 500"
    by (rule example_position_fields)
  have b: "(0::int) \<le> 1000000 + 0 + 0" by simp
  have c: "pool_fields (example_pool bytes_one_scale) bytes_one_scale"
    by (rule example_pool_fields)
  have d: "pool_fields (example_pool bytes_two_scale) bytes_two_scale"
    by (rule example_pool_fields)
  have e: "u256BytesToBigInt bytes_one_scale \<le> u256BytesToBigInt bytes_two_scale"
    by (simp add: u256_one_scale u256_two_scale)
  show ?thesis
    using a b c d e C4_monotone_in_accumulator [OF a b c d e] by blast
qed

subsection \<open>The end-to-end scenario\<close>

text \<open>
  Claim C5: with the pool accumulator \<open>2 * 2 ^ 128\<close> in 32 little-endian bytes, the
  checkpoint \<open>1 * 2 ^ 128\<close>, a total liquidity of 1,000,000 and a pending fee of 500,
  the delta is \<open>2 ^ 128\<close>, the newly accrued fee is 1,000,000 and the result is
  1,000,500.
\<close>

theorem C5_end_to_end_scenario:
  assumes "pool_fields poolState bytes_two_scale"
    and "position_fields posState u v p bytes_one_scale 500"
    and "u + v + p = 1000000"
  shows "length bytes_two_scale = 32 \<and>
         u256BytesToBigInt bytes_two_scale = 2 * 2 ^ 128 \<and>
         u256BytesToBigInt bytes_one_scale = 1 * 2 ^ 128 \<and>
         clamped_delta (u256BytesToBigInt bytes_two_scale)
           (u256BytesToBigInt bytes_one_scale) = 2 ^ 128 \<and>
         newlyAccrued 1000000 (2 ^ 128) = 1000000 \<and>
         computeUnclaimedTokenB poolState posState = Inr 1000500"
proof -
  have d: "clamped_delta (u256BytesToBigInt bytes_two_scale)
           (u256BytesToBigInt bytes_one_scale) = 2 ^ 128"
    by (simp add: u256_one_scale u256_two_scale clamped_delta_eq)
  have n: "newlyAccrued 1000000 (2 ^ 128) = 1000000"
    by (simp add: newlyAccrued_nonneg)
  have "u + v + p \<noteq> 0" using assms(3) by simp
  from computeUnclaimedTokenB_nonzero [OF assms(1,2) this]
  have r: "computeUnclaimedTokenB poolState posState = Inr 1000500"
    by (simp only: d assms(3) n) simp
  have len: "length bytes_two_scale = 32"
    by (simp add: bytes_two_scale_def)
  have a2: "u256BytesToBigInt bytes_two_scale = 2 * 2 ^ 128"
    by (rule u256_two_scale)
  have a1: "u256BytesToBigInt bytes_one_scale = 1 * 2 ^ 128"
    by (simp add: u256_one_scale)
  show ?thesis
    by (intro conjI len a2 a1 d n r)
qed

theorem C5_end_to_end_scenario_witness:
  "pool_fields (example_pool bytes_two_scale) bytes_two_scale \<and>
   position_fields (example_position 400000 350000 250000 bytes_one_scale 500)
     400000 350000 250000 bytes_one_scale 500 \<and>
   (400000::int) + 350000 + 250000 = 1000000 \<and>
   computeUnclaimedTokenB (example_pool bytes_two_scale)
     (example_position 400000 350000 250000 bytes_one_scale 500) = Inr 1000500"
proof -
  have a: "pool_fields (example_pool bytes_two_scale) bytes_two_scale"
    by (rule example_pool_fields)
  have b: "position_fields (example_position 400000 350000 250000 bytes_one_scale 500)
     400000 350000 250000 bytes_one_scale 500"
    by (rule example_position_fields)
  have c: "(400000::int) + 350000 + 250000 = 1000000" by simp
  show ?thesis
    using a b c C5_end_to_end_scenario [OF a b c] by blast
qed

subsection \<open>Little-endian decoding\<close>

text \<open>
  Claim C6: the decode of a byte sequence is the sum of \<open>b[i] * 256 ^ i\<close>, and
  decoding the \<open>n\<close>-byte little-endian encoding of a value below \<open>256 ^ n\<close> gives
  the value back.
\<close>

theorem C6_decode_little_endian:
  "u256BytesToBigInt b = le_sum b \<and>
   (0 \<le> v \<and> v < 256 ^ n \<longrightarrow>
      length (le_encode n v) = n \<and> u256BytesToBigInt (le_encode n v) = v)"
proof -
  have "u256BytesToBigInt b = le_sum b"
    by (simp only: u256BytesToBigInt_le_val le_val_sum)
  moreover have "u256BytesToBigInt (le_encode n v) = v" if "0 \<le> v" "v < 256 ^ n"
    using that by (simp only: u256BytesToBigInt_le_val le_val_encode)
  ultimately show ?thesis by (simp add: length_le_encode)
qed

theorem C6_decode_little_endian_witness:
  "u256BytesToBigInt [0x34, 0x12] = le_sum [0x34, 0x12] \<and>
   le_sum [0x34, 0x12] = 0x1234 \<and>
   le_encode 2 0x1234 = [0x34, 0x12] \<and>
   u256BytesToBigInt (le_encode 2 0x1234) = 0x1234"
proof -
  have enc: "le_encode 2 0x1234 = [0x34, 0x12]"
    by (simp add: numeral_2_eq_2)
  have "(0::int) \<le> 0x1234 \<and> (0x1234::int) < 256 ^ 2" by simp
  with C6_decode_little_endian [of "[0x34, 0x12]" "0x1234" 2]
  have "u256BytesToBigInt [0x34, 0x12] = le_sum [0x34, 0x12]"
    and "u256BytesToBigInt (le_encode 2 0x1234) = 0x1234"
    by blast+
  moreover have "le_sum [0x34, 0x12] = 0x1234"
    by (simp add: le_val_sum [symmetric])
  ultimately show ?thesis using enc by simp
qed

subsection \<open>Failures of type resolution\<close>

text \<open>
  Claim C7: for a fetched account, \<^verbatim>\<open>decodeIdlAccountUnknown\<close> fails with the
  ownership error whenever the owner is not the program, whatever the data; for an
  account of the program it fails with the no-match error whenever no IDL account's
  discriminator equals the first 8 bytes of the data, which is the case for all data
  shorter than 8 bytes (a digest has 32 bytes, so every discriminator has 8).
\<close>

theorem C7_type_resolution_failures:
  assumes "getAccountInfo env pubkey = Some info"
  shows "(owner info \<noteq> PROGRAM_ID \<longrightarrow>
            decodeIdlAccountUnknown env pubkey = Inl NotOwnedByProgram) \<and>
         (owner info = PROGRAM_ID \<and>
          (\<forall>name \<in> set (idl_accounts env).
              accountDiscriminator env name \<noteq> take 8 (data info)) \<longrightarrow>
            decodeIdlAccountUnknown env pubkey = Inl NoDiscriminatorMatch) \<and>
         (owner info = PROGRAM_ID \<and> length (data info) < 8 \<and>
          (\<forall>s. length (sha256 env s) = 32) \<longrightarrow>
            decodeIdlAccountUnknown env pubkey = Inl NoDiscriminatorMatch)"
proof (intro conjI impI)
  assume "owner info \<noteq> PROGRAM_ID"
  then show "decodeIdlAccountUnknown env pubkey = Inl NotOwnedByProgram"
    using assms by (simp add: decodeIdlAccountUnknown_def)
next
  assume "owner info = PROGRAM_ID \<and>
          (\<forall>name \<in> set (idl_accounts env).
              accountDiscriminator env name \<noteq> take 8 (data info))"
  then show "decodeIdlAccountUnknown env pubkey = Inl NoDiscriminatorMatch"
    using assms by (simp add: decodeIdlAccountUnknown_no_match)
next
  assume a: "owner info = PROGRAM_ID \<and> length (data info) < 8 \<and>
          (\<forall>s. length (sha256 env s) = 32)"
  have "accountDiscriminator env name \<noteq> take 8 (data info)" for name
  proof -
    have "length (accountDiscriminator env name) = 8"
      using a by (simp add: accountDiscriminator_def)
    moreover have "length (take 8 (data info)) < 8"
      using a by simp
    ultimately show ?thesis by auto
  qed
  then show "decodeIdlAccountUnknown env pubkey = Inl NoDiscriminatorMatch"
    using assms a by (simp add: decodeIdlAccountUnknown_no_match)
qed

theorem C7_type_resolution_failures_witness:
  "decodeIdlAccountUnknown example_env ''foreign'' = Inl NotOwnedByProgram \<and>
   decodeIdlAccountUnknown example_env ''untagged'' = Inl NoDiscriminatorMatch \<and>
   decodeIdlAccountUnknown example_env ''short'' = Inl NoDiscriminatorMatch"
proof -
  let ?foreign = "\<lparr>owner = ''11111111111111111111111111111111'',
                   data = [12, 0, 0, 0, 0, 0, 0, 0, 1, 2, 3 :: byte]\<rparr>"
  let ?untagged = "\<lparr>owner = PROGRAM_ID, data = [9, 9, 9, 9, 9, 9, 9, 9, 1, 2, 3 :: byte]\<rparr>"
  let ?short = "\<lparr>owner = PROGRAM_ID, data = [12, 0, 0 :: byte]\<rparr>"
  have g1: "getAccountInfo example_env ''foreign'' = Some ?foreign"
    by (simp add: example_env_def example_chain_def)
  have g2: "getAccountInfo example_env ''untagged'' = Some ?untagged"
    by (simp add: example_env_def example_chain_def)
  have g3: "getAccountInfo example_env ''short'' = Some ?short"
    by (simp add: example_env_def example_chain_def)
  have o1: "owner ?foreign \<noteq> PROGRAM_ID"
    by (simp add: PROGRAM_ID_def)
  have accs: "idl_accounts example_env = [''Pool'', ''Position'']"
    by (simp add: example_env_def)
  have h2: "owner ?untagged = PROGRAM_ID \<and>
        (\<forall>name \<in> set (idl_accounts example_env).
            accountDiscriminator example_env name \<noteq> take 8 (data ?untagged))"
    by (simp add: accs example_disc_Pool example_disc_Position)
  have h3: "owner ?short = PROGRAM_ID \<and> length (data ?short) < 8 \<and>
        (\<forall>s. length (sha256 example_env s) = 32)"
    by (simp add: example_env_def example_digest_def)
  show ?thesis
    using C7_type_resolution_failures [OF g1] C7_type_resolution_failures [OF g2]
      C7_type_resolution_failures [OF g3] o1 h2 h3
    by blast
qed

subsection \<open>Sign of the result\<close>

text \<open>
  Claim C8: on a well-formed pair (byte sequences for the two wide fields,
  non-negative liquidity components and pending fee) \<^verbatim>\<open>computeUnclaimedTokenB\<close>
  returns a value, and the value is not negative.
\<close>

theorem C8_result_nonnegative:
  assumes "pool_fields poolState acc"
    and "position_fields posState u v p chk pending"
    and "0 \<le> u" "0 \<le> v" "0 \<le> p" "0 \<le> pending"
  shows "\<exists>r. computeUnclaimedTokenB poolState posState = Inr r \<and> 0 \<le> r"
proof (cases "u + v + p = 0")
  case True
  have "liquidity_fields posState u v p"
    using assms(2) by (simp add: position_fields_def)
  then show ?thesis using True by (simp add: computeUnclaimedTokenB_zero)
next
  case False
  let ?d = "clamped_delta (u256BytesToBigInt acc) (u256BytesToBigInt chk)"
  have l: "0 \<le> u + v + p" using assms(3-5) by simp
  have d: "0 \<le> ?d" by (simp add: clamped_delta_eq)
  have "0 \<le> (u + v + p) * ?d" using l d by simp
  then have "0 \<le> ((u + v + p) * ?d) div 2 ^ 128"
    by (simp add: pos_imp_zdiv_nonneg_iff)
  then have "0 \<le> newlyAccrued (u + v + p) ?d"
    using l d by (simp add: newlyAccrued_nonneg)
  then show ?thesis
    using computeUnclaimedTokenB_nonzero [OF assms(1,2) False] assms(6) by simp
qed

theorem C8_result_nonnegative_witness:
  "pool_fields (example_pool bytes_two_scale) bytes_two_scale \<and>
   position_fields (example_position 3 4 5 bytes_one_scale 6) 3 4 5 bytes_one_scale 6 \<and>
   (0::int) \<le> 3 \<and> (0::int) \<le> 4 \<and> (0::int) \<le> 5 \<and> (0::int) \<le> 6 \<and>
   (\<exists>r. computeUnclaimedTokenB (example_pool bytes_two_scale)
          (example_position 3 4 5 bytes_one_scale 6) = Inr r \<and> 0 \<le> r)"
proof -
  have a: "pool_fields (example_pool bytes_two_scale) bytes_two_scale"
    by (rule example_pool_fields)
  have b: "position_fields (example_position 3 4 5 bytes_one_scale 6) 3 4 5 bytes_one_scale 6"
    by (rule example_position_fields)
  show ?thesis
    using a b C8_result_nonnegative [OF a b, simplified] by simp
qed

subsection \<open>Fields read\<close>

text \<open>
  Claim C9: two pairs of accounts that agree on the six fields read (present or not,
  and with which value) give the same outcome, value or error, whatever else the
  accounts carry.
\<close>

theorem C9_depends_only_on_six_fields:
  assumes "pool1 ''fee_b_per_liquidity'' = pool2 ''fee_b_per_liquidity''"
    and "pos1 ''unlocked_liquidity'' = pos2 ''unlocked_liquidity''"
    and "pos1 ''vested_liquidity'' = pos2 ''vested_liquidity''"
    and "pos1 ''permanent_locked_liquidity'' = pos2 ''permanent_locked_liquidity''"
    and "pos1 ''fee_b_per_token_checkpoint'' = pos2 ''fee_b_per_token_checkpoint''"
    and "pos1 ''fee_b_pending'' = pos2 ''fee_b_pending''"
  shows "computeUnclaimedTokenB pool1 pos1 = computeUnclaimedTokenB pool2 pos2"
  by (simp only: computeUnclaimedTokenB_def BigInt_toString_def u256_field_def assms)

theorem C9_depends_only_on_six_fields_witness:
  "example_pool bytes_two_scale ''sqrt_price''
     \<noteq> ((example_pool bytes_two_scale)(''sqrt_price'' \<mapsto> BNv 42)) ''sqrt_price'' \<and>
   computeUnclaimedTokenB (example_pool bytes_two_scale)
       (example_position 1000000 0 0 bytes_one_scale 500)
     = computeUnclaimedTokenB ((example_pool bytes_two_scale)(''sqrt_price'' \<mapsto> BNv 42))
         ((example_position 1000000 0 0 bytes_one_scale 500)(''nft_mint'' \<mapsto> Bytes [1, 2, 3]))"
proof -
  have d: "example_pool bytes_two_scale ''sqrt_price''
     \<noteq> ((example_pool bytes_two_scale)(''sqrt_price'' \<mapsto> BNv 42)) ''sqrt_price''"
    by (simp add: example_pool_def)
  have "computeUnclaimedTokenB (example_pool bytes_two_scale)
       (example_position 1000000 0 0 bytes_one_scale 500)
     = computeUnclaimedTokenB ((example_pool bytes_two_scale)(''sqrt_price'' \<mapsto> BNv 42))
         ((example_position 1000000 0 0 bytes_one_scale 500)(''nft_mint'' \<mapsto> Bytes [1, 2, 3]))"
    by (rule C9_depends_only_on_six_fields) simp_all
  with d show ?thesis by simp
qed

subsection \<open>Range of the decode\<close>

text \<open>
  Claim C10: the decode of a byte sequence of length \<open>n\<close> lies in
  \<open>0 \<le> v < 2 ^ (8 * n)\<close>; it is 0 on the empty sequence; being a total function
  (the loop terminates for every length), it never fails.
\<close>

theorem C10_decode_range:
  "0 \<le> u256BytesToBigInt b \<and> u256BytesToBigInt b < 2 ^ (8 * length b) \<and>
   u256BytesToBigInt [] = 0"
proof -
  have "(256::int) ^ length b = 2 ^ (8 * length b)"
    by (simp add: power_mult)
  then show ?thesis
    using le_val_nonneg [of b] le_val_bound [of b]
    by (simp add: u256BytesToBigInt_le_val)
qed

end
